theory Spec2Isabelle
  imports
    Main
    "HOL-Library.Char_ord"
    "HOL-Library.List_Lexorder"
    "HOL-Library.Multiset"
begin

section \<open>Requests, responses and errors\<close>

text \<open>
  The repository holds three Flask applications over a SQLite database:
  \<^verbatim>\<open>app.py\<close> (table \<^verbatim>\<open>ReportedItem\<close>, routes \<^verbatim>\<open>/\<close>, \<^verbatim>\<open>/dashboard\<close>, \<^verbatim>\<open>/report\<close>,
  \<^verbatim>\<open>/uploads/<filename>\<close>) and \<^verbatim>\<open>safety.py\<close>, \<^verbatim>\<open>search.py\<close> (table \<^verbatim>\<open>Item\<close>, routes
  \<^verbatim>\<open>/\<close>, \<^verbatim>\<open>/report\<close>, \<^verbatim>\<open>/update/<int:item_id>\<close>). The handlers \<^verbatim>\<open>report\<close> and \<^verbatim>\<open>update\<close>
  of \<^verbatim>\<open>safety.py\<close> and \<^verbatim>\<open>search.py\<close> are the same text, so they are modelled once.

  A handler is a function from the persistent state and the request to the new state and
  either an HTTP error or a response. Strings are byte strings. The routes accept the
  methods GET and POST only.
\<close>

datatype http_method = GET | POST

text \<open>
  An uploaded file as werkzeug hands it to the handler: its truth value is the truth value
  of its file name (\<^verbatim>\<open>bool(file)\<close> is \<^verbatim>\<open>bool(file.filename)\<close>).
\<close>

record file_storage =
  filename :: string
  content :: string

definition file_bool :: "file_storage \<Rightarrow> bool" where
  "file_bool f = (filename f \<noteq> [])"

record request =
  req_method :: http_method
  form :: "string \<rightharpoonup> string"
  files :: "string \<rightharpoonup> file_storage"

text \<open>
  \<^verbatim>\<open>request.form[k]\<close> and \<^verbatim>\<open>request.files[k]\<close> on a missing key raise a key error that
  Flask answers with 400; \<^verbatim>\<open>get_or_404\<close> aborts with 404; an exception that no handler
  catches is answered with 500.
\<close>

datatype http_error = BadRequest | NotFound | InternalServerError

datatype 'c response = Render string 'c | Redirect string

section \<open>app.py\<close>

subsection \<open>The upload whitelist\<close>

definition UPLOAD_FOLDER :: string where
  "UPLOAD_FOLDER = ''uploads''"

definition ALLOWED_EXTENSIONS :: "string set" where
  "ALLOWED_EXTENSIONS = {''png'', ''jpg'', ''jpeg'', ''gif''}"

text \<open>
  \<^verbatim>\<open>str.lower\<close> on the letters that matter for the whitelist: the upper-case ASCII letters
  are mapped to lower case, every other byte is kept.
\<close>

definition lower_char :: "char \<Rightarrow> char" where
  "lower_char c =
     (case map_of (zip ''ABCDEFGHIJKLMNOPQRSTUVWXYZ'' ''abcdefghijklmnopqrstuvwxyz'') c of
        None \<Rightarrow> c
      | Some d \<Rightarrow> d)"

definition lower :: "string \<Rightarrow> string" where
  "lower s = map lower_char s"

text \<open>\<^verbatim>\<open>s.rsplit('.', 1)\<close>: split once, at the last dot.\<close>

definition rsplit_dot :: "string \<Rightarrow> string list" where
  "rsplit_dot s =
     (if CHR ''.'' \<in> set s
      then [rev (tl (dropWhile (\<lambda>c. c \<noteq> CHR ''.'') (rev s))),
            rev (takeWhile (\<lambda>c. c \<noteq> CHR ''.'') (rev s))]
      else [s])"

text \<open>
  \<^verbatim>\<open>return '.' in filename and filename.rsplit('.', 1)[1].lower() in ALLOWED_EXTENSIONS\<close>
\<close>

definition allowed_file :: "string \<Rightarrow> bool" where
  "allowed_file fname =
     (CHR ''.'' \<in> set fname \<and> lower (rsplit_dot fname ! 1) \<in> ALLOWED_EXTENSIONS)"

subsection \<open>The table and the upload folder\<close>

text \<open>
  A row of \<^verbatim>\<open>ReportedItem\<close>. The column \<^verbatim>\<open>address\<close> is nullable. \<^verbatim>\<open>date\<close> is a string
  column, so the database compares dates as byte strings.
\<close>

record reported_item =
  r_id :: nat
  r_item_name :: string
  r_description :: string
  r_status :: string
  r_reported_by :: string
  r_address :: "string option"
  r_date :: string
  r_proof :: string

text \<open>
  The persistent state of \<^verbatim>\<open>app.py\<close>: the rows of the table in insertion order and the
  files on disk, path to content.
\<close>

record app_state =
  db :: "reported_item list"
  uploads :: "string \<rightharpoonup> string"

text \<open>
  The integer primary key of a new row: one more than the largest key in the table,
  1 in an empty table.
\<close>

definition next_id :: "nat list \<Rightarrow> nat" where
  "next_id ids = Suc (fold max ids 0)"

text \<open>\<^verbatim>\<open>os.path.join(a, b)\<close> for one component.\<close>

definition path_join :: "string \<Rightarrow> string \<Rightarrow> string" where
  "path_join a b =
     (if b \<noteq> [] \<and> hd b = CHR ''/'' then b
      else if a = [] \<or> last a = CHR ''/'' then a @ b
      else a @ ''/'' @ b)"

subsection \<open>Queries of the dashboard\<close>

text \<open>\<^verbatim>\<open>ReportedItem.query.filter_by(status=s).count()\<close>\<close>

definition count_by_status :: "string \<Rightarrow> reported_item list \<Rightarrow> nat" where
  "count_by_status s rows = length (filter (\<lambda>x. r_status x = s) rows)"

text \<open>
  \<^verbatim>\<open>order_by(ReportedItem.date.desc())\<close>: the rows by descending date. The order of rows
  with equal dates is not fixed by the query; here a row goes before the rows of the
  same date that are already placed.
\<close>

fun insert_desc :: "reported_item \<Rightarrow> reported_item list \<Rightarrow> reported_item list" where
  "insert_desc x [] = [x]"
| "insert_desc x (y # ys) =
     (if r_date y \<le> r_date x then x # y # ys else y # insert_desc x ys)"

definition order_by_date_desc :: "reported_item list \<Rightarrow> reported_item list" where
  "order_by_date_desc rows = foldr insert_desc rows []"

text \<open>\<^verbatim>\<open>.limit(n)\<close>\<close>

definition limit :: "nat \<Rightarrow> 'a list \<Rightarrow> 'a list" where
  "limit n rows = take n rows"

record dashboard_data =
  total_lost :: nat
  total_found :: nat
  recent_activity :: "reported_item list"

subsection \<open>The handlers\<close>

type_synonym app_result = "app_state \<times> (http_error + dashboard_data option response)"

definition home :: "app_state \<Rightarrow> app_result" where
  "home st = (st, Inr (Render ''index.html'' None))"

definition dashboard_summary :: "app_state \<Rightarrow> dashboard_data" where
  "dashboard_summary st =
     \<lparr>total_lost = count_by_status ''Lost'' (db st),
      total_found = count_by_status ''Found'' (db st),
      recent_activity = limit 5 (order_by_date_desc (db st))\<rparr>"

definition dashboard :: "app_state \<Rightarrow> app_result" where
  "dashboard st = (st, Inr (Render ''dashboard.html'' (Some (dashboard_summary st))))"

text \<open>
  \<^verbatim>\<open>report\<close>. The parameters \<open>secure_filename\<close> and \<open>now\<close> stand for werkzeug's
  \<^verbatim>\<open>secure_filename\<close> and for the reading of the wall clock,
  \<^verbatim>\<open>datetime.now().strftime("%Y-%m-%d %H:%M:%S")\<close>, at the call. The flashed message is
  not part of the state.
\<close>

definition report ::
  "(string \<Rightarrow> string) \<Rightarrow> string \<Rightarrow> app_state \<Rightarrow> request \<Rightarrow> app_result" where
  "report secure_filename now st req =
     (if req_method req = POST then
        (case form req ''item_name'' of None \<Rightarrow> (st, Inl BadRequest) | Some item_name \<Rightarrow>
        (case form req ''description'' of None \<Rightarrow> (st, Inl BadRequest) | Some description \<Rightarrow>
        (case form req ''status'' of None \<Rightarrow> (st, Inl BadRequest) | Some status \<Rightarrow>
        (case form req ''address'' of None \<Rightarrow> (st, Inl BadRequest) | Some address \<Rightarrow>
        (case files req ''proof'' of None \<Rightarrow> (st, Inl BadRequest) | Some file \<Rightarrow>
           if file_bool file \<and> allowed_file (filename file) then
             let fname = secure_filename (filename file);
                 file_path = path_join UPLOAD_FOLDER fname;
                 st1 = st\<lparr>uploads := (uploads st)(file_path \<mapsto> content file)\<rparr>;
                 new_item = \<lparr>r_id = next_id (map r_id (db st1)),
                             r_item_name = item_name,
                             r_description = description,
                             r_status = status,
                             r_reported_by = ''Anonymous'',
                             r_address = Some address,
                             r_date = now,
                             r_proof = fname\<rparr>;
                 st2 = st1\<lparr>db := db st1 @ [new_item]\<rparr>
             in (st2, Inr (Redirect ''/dashboard''))
           else (st, Inr (Render ''report.html'' None)))))))
      else (st, Inr (Render ''report.html'' None)))"

definition uploaded_file :: "app_state \<Rightarrow> string \<Rightarrow> app_result" where
  "uploaded_file st fname = (st, Inr (Redirect (''/static/uploads/'' @ fname)))"

text \<open>Reading a row by its primary key.\<close>

definition get_reported :: "reported_item list \<Rightarrow> nat \<Rightarrow> reported_item option" where
  "get_reported rows i = find (\<lambda>x. r_id x = i) rows"

text \<open>The requests \<^verbatim>\<open>app.py\<close> serves, and the state after a sequence of them.\<close>

datatype app_call =
    Home
  | Dashboard
  | Report string request
  | Uploaded_file string

fun app_step :: "(string \<Rightarrow> string) \<Rightarrow> app_state \<Rightarrow> app_call \<Rightarrow> app_state" where
  "app_step sf st Home = fst (home st)"
| "app_step sf st Dashboard = fst (dashboard st)"
| "app_step sf st (Report now req) = fst (report sf now st req)"
| "app_step sf st (Uploaded_file fname) = fst (uploaded_file st fname)"

definition app_run :: "(string \<Rightarrow> string) \<Rightarrow> app_state \<Rightarrow> app_call list \<Rightarrow> app_state" where
  "app_run sf st calls = foldl (app_step sf) st calls"

section \<open>safety.py and search.py\<close>

text \<open>
  A row of \<^verbatim>\<open>Item\<close>. The columns \<^verbatim>\<open>proof\<close> and \<^verbatim>\<open>address\<close> are nullable; \<^verbatim>\<open>status\<close> has
  the column default \<^verbatim>\<open>"Lost"\<close>, which the database fills in when the constructor is
  given no status.
\<close>

record item =
  item_id :: nat
  item_name :: string
  description :: string
  reported_by :: string
  contact_info :: string
  status :: string
  proof' :: "string option"
  address :: "string option"

datatype item_context = No_context | Items "item list" | One_item item

type_synonym item_result = "item list \<times> (http_error + item_context response)"

definition index :: "item list \<Rightarrow> item_result" where
  "index items = (items, Inr (Render ''index.html'' (Items items)))"

definition report_item :: "item list \<Rightarrow> request \<Rightarrow> item_result" where
  "report_item items req =
     (if req_method req = POST then
        (case form req ''item_name'' of None \<Rightarrow> (items, Inl BadRequest) | Some iname \<Rightarrow>
        (case form req ''description'' of None \<Rightarrow> (items, Inl BadRequest) | Some descr \<Rightarrow>
        (case form req ''reported_by'' of None \<Rightarrow> (items, Inl BadRequest) | Some rby \<Rightarrow>
        (case form req ''contact_info'' of None \<Rightarrow> (items, Inl BadRequest) | Some cinfo \<Rightarrow>
        (case form req ''proof'' of None \<Rightarrow> (items, Inl BadRequest) | Some prf \<Rightarrow>
        (case form req ''address'' of None \<Rightarrow> (items, Inl BadRequest) | Some addr \<Rightarrow>
           let new_item = \<lparr>item_id = next_id (map item_id items),
                           item_name = iname,
                           description = descr,
                           reported_by = rby,
                           contact_info = cinfo,
                           status = ''Lost'',
                           proof' = Some prf,
                           address = Some addr\<rparr>
           in (items @ [new_item], Inr (Redirect ''/''))))))))
      else (items, Inr (Render ''report.html'' No_context)))"

text \<open>Reading a row by its primary key.\<close>

definition get_item :: "item list \<Rightarrow> nat \<Rightarrow> item option" where
  "get_item items i = find (\<lambda>x. item_id x = i) items"

text \<open>
  \<^verbatim>\<open>Item.query.get_or_404(item_id)\<close>. The route converter \<^verbatim>\<open><int:item_id>\<close> passes any
  natural number on. The key column is a signed 64-bit integer, the largest key being
  \<open>2 ^ 63 - 1\<close>: no row has a key of \<open>2 ^ 63\<close> or more, and for such an id the lookup
  cannot bind its parameter and raises \<^verbatim>\<open>OverflowError\<close>, which nothing catches.
\<close>

definition MAX_KEY :: nat where
  "MAX_KEY = 2 ^ 63 - 1"

definition get_or_404 :: "item list \<Rightarrow> nat \<Rightarrow> http_error + item" where
  "get_or_404 items i =
     (case get_item items i of
        None \<Rightarrow> if i \<le> MAX_KEY then Inl NotFound else Inl InternalServerError
      | Some x \<Rightarrow> Inr x)"

text \<open>
  \<^verbatim>\<open>item.status = s; db.session.commit()\<close> for the row loaded under key \<open>i\<close>: the commit
  writes the status of the row with that key.
\<close>

definition commit_status :: "item list \<Rightarrow> nat \<Rightarrow> string \<Rightarrow> item list" where
  "commit_status items i s = map (\<lambda>x. if item_id x = i then x\<lparr>status := s\<rparr> else x) items"

definition update :: "item list \<Rightarrow> nat \<Rightarrow> request \<Rightarrow> item_result" where
  "update items i req =
     (case get_or_404 items i of
        Inl e \<Rightarrow> (items, Inl e)
      | Inr x \<Rightarrow>
          if req_method req = POST then
            (case form req ''status'' of
               None \<Rightarrow> (items, Inl BadRequest)
             | Some s \<Rightarrow> (commit_status items i s, Inr (Redirect ''/'')))
          else (items, Inr (Render ''update.html'' (One_item x))))"

text \<open>The requests these applications serve, and the table after a sequence of them.\<close>

datatype item_call =
    Index
  | Report_item request
  | Update nat request

fun item_step :: "item list \<Rightarrow> item_call \<Rightarrow> item list" where
  "item_step items Index = fst (index items)"
| "item_step items (Report_item req) = fst (report_item items req)"
| "item_step items (Update i req) = fst (update items i req)"

definition item_run :: "item list \<Rightarrow> item_call list \<Rightarrow> item list" where
  "item_run items calls = foldl item_step items calls"

text \<open>
  \<^verbatim>\<open>create_sample_data\<close> of \<^verbatim>\<open>safety.py\<close>: one sample row, added when the table is empty.
\<close>

definition create_sample_data :: "item list \<Rightarrow> item list" where
  "create_sample_data items =
     (if items = [] then
        items @ [\<lparr>item_id = next_id (map item_id items),
                  item_name = ''Lost Wallet'',
                  description = ''A black leather wallet with cash and cards.'',
                  reported_by = ''Jane Smith'',
                  contact_info = ''jane.smith@example.com'',
                  status = ''Lost'',
                  proof' = None,
                  address = Some ''Building B, Room 202''\<rparr>]
      else items)"

section \<open>Sequences of requests\<close>

text \<open>
  The status strings of the specification, and the requests that carry no other status:
  a report to \<^verbatim>\<open>app.py\<close> or an update whose status field, when present, is one of the two.
\<close>

definition lost_or_found :: "string \<Rightarrow> bool" where
  "lost_or_found s = (s = ''Lost'' \<or> s = ''Found'')"

fun app_call_ok :: "app_call \<Rightarrow> bool" where
  "app_call_ok (Report now req) =
     (case form req ''status'' of None \<Rightarrow> True | Some s \<Rightarrow> lost_or_found s)"
| "app_call_ok _ = True"

fun item_call_ok :: "item_call \<Rightarrow> bool" where
  "item_call_ok (Update i req) =
     (case form req ''status'' of None \<Rightarrow> True | Some s \<Rightarrow> lost_or_found s)"
| "item_call_ok _ = True"

text \<open>
  The readings of the wall clock at the reports of a sequence of requests, in order.
\<close>

fun clock_readings :: "app_call list \<Rightarrow> string list" where
  "clock_readings [] = []"
| "clock_readings (Report now req # cs) = now # clock_readings cs"
| "clock_readings (c # cs) = clock_readings cs"

section \<open>Concrete requests\<close>

text \<open>
  The inputs at which the theorems below are evaluated: the empty state of \<^verbatim>\<open>app.py\<close>, a
  POST request from its form fields and uploads, the fields of a report (with or without a
  status field), and an upload under a given file name.
\<close>

definition no_rows :: app_state where
  "no_rows = \<lparr>db = [], uploads = Map.empty\<rparr>"

definition submission :: "(string \<times> string) list \<Rightarrow> (string \<times> file_storage) list \<Rightarrow> request" where
  "submission kvs ups = \<lparr>req_method = POST, form = map_of kvs, files = map_of ups\<rparr>"

definition form_fields :: "string \<Rightarrow> string option \<Rightarrow> (string \<times> string) list" where
  "form_fields name st =
     [(''item_name'', name), (''description'', ''Black leather''),
      (''reported_by'', ''Jane''), (''contact_info'', ''jane@example.com''),
      (''proof'', ''''), (''address'', ''Building B'')]
     @ (case st of None \<Rightarrow> [] | Some s \<Rightarrow> [(''status'', s)])"

definition upload :: "string \<Rightarrow> (string \<times> file_storage) list" where
  "upload fname = [(''proof'', \<lparr>filename = fname, content = ''bytes''\<rparr>)]"

text \<open>
  A report with all fields and an upload named \<^verbatim>\<open>photo.jpg\<close>, which is accepted; the row it
  creates; six such reports and the state after them.
\<close>

definition accepted_report :: "string \<Rightarrow> string \<Rightarrow> app_call" where
  "accepted_report now s =
     Report now (submission (form_fields ''Wallet'' (Some s)) (upload ''photo.jpg''))"

definition wallet_row :: "nat \<Rightarrow> string \<Rightarrow> string \<Rightarrow> reported_item" where
  "wallet_row i s d =
     \<lparr>r_id = i, r_item_name = ''Wallet'', r_description = ''Black leather'', r_status = s,
      r_reported_by = ''Anonymous'', r_address = Some ''Building B'', r_date = d,
      r_proof = ''photo.jpg''\<rparr>"

definition six_reports :: "app_call list" where
  "six_reports =
     [accepted_report ''2024-05-01 10:00:00'' ''Lost'',
      accepted_report ''2024-05-01 10:00:07'' ''Found'',
      accepted_report ''2024-05-01 11:30:00'' ''Lost'',
      accepted_report ''2024-05-02 09:15:00'' ''Found'',
      accepted_report ''2024-05-02 09:15:30'' ''Lost'',
      accepted_report ''2024-05-03 08:00:00'' ''Found'']"

definition six_rows :: app_state where
  "six_rows = app_run id no_rows six_reports"

section \<open>Facts about the helpers\<close>

lemma rsplit_dot_ext:
  "CHR ''.'' \<notin> set ext \<Longrightarrow> rsplit_dot (base @ ''.'' @ ext) ! 1 = ext"
proof -
  assume nd: "CHR ''.'' \<notin> set ext"
  have "takeWhile (\<lambda>c. c \<noteq> CHR ''.'') (rev ext @ CHR ''.'' # rev base) = rev ext"
    using nd by (subst takeWhile_append2) auto
  then show ?thesis by (simp add: rsplit_dot_def)
qed

lemma allowed_file_no_dot: "CHR ''.'' \<notin> set fname \<Longrightarrow> \<not> allowed_file fname"
  by (simp add: allowed_file_def)

lemma allowed_file_ext:
  "CHR ''.'' \<notin> set ext \<Longrightarrow>
   allowed_file (base @ ''.'' @ ext) = (lower ext \<in> ALLOWED_EXTENSIONS)"
  using rsplit_dot_ext [of ext base] by (simp add: allowed_file_def)

lemma allowed_file_examples:
  "allowed_file ''photo.JPG''" "\<not> allowed_file ''photo.exe''" "\<not> allowed_file ''a.png.txt''"
  by (simp_all add: allowed_file_def rsplit_dot_def lower_def lower_char_def
      ALLOWED_EXTENSIONS_def)






lemma get_item_commit_same:
  "get_item items i = Some x \<Longrightarrow>
   get_item (commit_status items i s) i = Some (x\<lparr>status := s\<rparr>)"
  unfolding get_item_def commit_status_def
  by (induction items) (auto split: if_splits)

lemma get_item_commit_other:
  "j \<noteq> i \<Longrightarrow> get_item (commit_status items i s) j = get_item items j"
  unfolding get_item_def commit_status_def
  by (induction items) auto

lemma update_post:
  "get_item items i = Some x \<Longrightarrow> req_method req = POST \<Longrightarrow> form req ''status'' = Some s \<Longrightarrow>
   update items i req = (commit_status items i s, Inr (Redirect ''/''))"
  by (simp add: update_def get_or_404_def)

section \<open>Uploads that are not accepted\<close>

text \<open>
  C10. In \<^verbatim>\<open>app.py\<close>, a POST submission whose proof upload is absent (no \<^verbatim>\<open>proof\<close> part, or
  a part with an empty file name) or whose file name \<^verbatim>\<open>allowed_file\<close> rejects, in
  particular a file name without a dot, leaves the state as it was: no row is added and
  no file is written.
\<close>

theorem report_without_accepted_upload:
  assumes "req_method req = POST"
    and "files req ''proof'' = None \<or>
         (\<exists>f. files req ''proof'' = Some f \<and>
              (\<not> file_bool f \<or> \<not> allowed_file (filename f) \<or>
               CHR ''.'' \<notin> set (filename f)))"
  shows "fst (report sf now st req) = st"
  using assms
  by (auto simp: report_def allowed_file_no_dot split: option.splits)

text \<open>C10 at an upload named \<^verbatim>\<open>README\<close>.\<close>

theorem report_without_accepted_upload_witness:
  "req_method (submission (form_fields ''Wallet'' (Some ''Lost'')) (upload ''README'')) = POST \<and>
   files (submission (form_fields ''Wallet'' (Some ''Lost'')) (upload ''README'')) ''proof''
     = Some \<lparr>filename = ''README'', content = ''bytes''\<rparr> \<and>
   CHR ''.'' \<notin> set ''README'' \<and>
   fst (report id ''2024-05-01 10:00:00'' no_rows
          (submission (form_fields ''Wallet'' (Some ''Lost'')) (upload ''README''))) = no_rows"
  using report_without_accepted_upload
    [of "submission (form_fields ''Wallet'' (Some ''Lost'')) (upload ''README'')"
        id "''2024-05-01 10:00:00''" no_rows]
  by (simp add: submission_def upload_def)

text \<open>
  C1 as stated (a submission whose upload has an extension outside the whitelist still
  creates the item, without proof) fails: with an upload named \<^verbatim>\<open>photo.exe\<close> the table
  stays empty.
\<close>

theorem report_exe_creates_nothing:
  "db (fst (report id ''2024-05-01 10:00:00'' no_rows
          (submission (form_fields ''Wallet'' (Some ''Lost'')) (upload ''photo.exe'')))) = []"
  by (simp add: report_def submission_def upload_def form_fields_def no_rows_def file_bool_def
      allowed_file_def rsplit_dot_def lower_def lower_char_def ALLOWED_EXTENSIONS_def)

text \<open>
  C1, amended. A POST submission that carries all form fields and an upload whose file name
  ends in a dot and an extension outside the whitelist raises no error: \<^verbatim>\<open>report\<close> answers
  with the report page, and it creates no item (the state is unchanged).
\<close>

theorem report_rejected_extension:
  assumes "req_method req = POST"
    and "form req ''item_name'' \<noteq> None" and "form req ''description'' \<noteq> None"
    and "form req ''status'' \<noteq> None" and "form req ''address'' \<noteq> None"
    and "files req ''proof'' = Some f"
    and "filename f = base @ ''.'' @ ext" and "CHR ''.'' \<notin> set ext"
    and "lower ext \<notin> ALLOWED_EXTENSIONS"
  shows "report sf now st req = (st, Inr (Render ''report.html'' None))"
  using assms allowed_file_ext [of ext base]
  by (auto simp: report_def split: option.splits)

text \<open>C1, amended, at an upload named \<^verbatim>\<open>photo.exe\<close>.\<close>

theorem report_rejected_extension_witness:
  "lower ''exe'' \<notin> ALLOWED_EXTENSIONS \<and>
   report id ''2024-05-01 10:00:00'' no_rows
     (submission (form_fields ''Wallet'' (Some ''Lost'')) (upload ''photo.exe''))
   = (no_rows, Inr (Render ''report.html'' None))"
  using report_rejected_extension
    [of "submission (form_fields ''Wallet'' (Some ''Lost'')) (upload ''photo.exe'')"
        "\<lparr>filename = ''photo.exe'', content = ''bytes''\<rparr>" "''photo''" "''exe''"
        id "''2024-05-01 10:00:00''" no_rows]
  by (simp add: submission_def upload_def form_fields_def lower_def lower_char_def
      ALLOWED_EXTENSIONS_def)

section \<open>Updating the status\<close>




text \<open>
  C4. For an existing id and a POST request with a status, \<^verbatim>\<open>update\<close> overwrites the status
  of the row with that id and nothing else: read back by id, the row has the new status and
  its id, item_name, description, reported_by, contact_info, address and proof are what they
  were (the table \<^verbatim>\<open>Item\<close> has no date column); the table keeps its length, every row with
  another id is unchanged, and every other id reads back as before.
\<close>

theorem update_overwrites_status_only:
  assumes "get_item items i = Some x" and "req_method req = POST" and "form req ''status'' = Some s"
  shows "\<exists>items' y. fst (update items i req) = items' \<and> get_item items' i = Some y \<and>
           status y = s \<and>
           item_id y = item_id x \<and> item_name y = item_name x \<and>
           description y = description x \<and> reported_by y = reported_by x \<and>
           contact_info y = contact_info x \<and> address y = address x \<and>
           proof' y = proof' x \<and>
           length items' = length items \<and>
           (\<forall>k<length items. item_id (items ! k) \<noteq> i \<longrightarrow> items' ! k = items ! k) \<and>
           (\<forall>j. j \<noteq> i \<longrightarrow> get_item items' j = get_item items j)"
proof -
  have u: "fst (update items i req) = commit_status items i s"
    using assms by (simp add: update_post)
  have g: "get_item (commit_status items i s) i = Some (x\<lparr>status := s\<rparr>)"
    using assms(1) by (rule get_item_commit_same)
  have l: "length (commit_status items i s) = length items"
    by (simp add: commit_status_def)
  have k: "\<forall>k<length items. item_id (items ! k) \<noteq> i \<longrightarrow>
             commit_status items i s ! k = items ! k"
    by (simp add: commit_status_def)
  have o: "\<forall>j. j \<noteq> i \<longrightarrow> get_item (commit_status items i s) j = get_item items j"
    by (simp add: get_item_commit_other)
  show ?thesis using u g l k o by simp
qed

text \<open>C4 at the sample row, set to \<^verbatim>\<open>Found\<close>.\<close>

theorem update_overwrites_status_only_witness:
  "get_item (create_sample_data []) 1 = Some (hd (create_sample_data [])) \<and>
   fst (update (create_sample_data []) 1 (submission [(''status'', ''Found'')] []))
     = [(hd (create_sample_data []))\<lparr>status := ''Found''\<rparr>]"
  using update_overwrites_status_only
    [of "create_sample_data []" 1 "hd (create_sample_data [])"
        "submission [(''status'', ''Found'')] []" "''Found''"]
  by (simp add: create_sample_data_def next_id_def get_item_def submission_def
      update_def get_or_404_def commit_status_def)

text \<open>
  C5 as stated (a status that is neither \<^verbatim>\<open>Lost\<close> nor \<^verbatim>\<open>Found\<close> makes \<^verbatim>\<open>update\<close> fail and
  modifies nothing) fails: the status \<^verbatim>\<open>Stolen\<close> is written to the sample row and the
  request is answered with the redirect.
\<close>

theorem update_invalid_status_stored:
  "update (create_sample_data []) 1 (submission [(''status'', ''Stolen'')] [])
     = ([\<lparr>item_id = 1,
          item_name = ''Lost Wallet'',
          description = ''A black leather wallet with cash and cards.'',
          reported_by = ''Jane Smith'',
          contact_info = ''jane.smith@example.com'',
          status = ''Stolen'',
          proof' = None,
          address = Some ''Building B, Room 202''\<rparr>], Inr (Redirect ''/''))"
  by (simp add: update_def get_or_404_def get_item_def commit_status_def create_sample_data_def
      next_id_def submission_def)

text \<open>
  C5, amended. For an existing id, a POST to \<^verbatim>\<open>update\<close> stores whatever status string the
  request carries, also one that is neither \<^verbatim>\<open>Lost\<close> nor \<^verbatim>\<open>Found\<close>, and answers with the
  redirect; it fails only when the request carries no status field, with 400 Bad Request,
  and in that case no row is modified.
\<close>

theorem update_accepts_any_status:
  assumes "get_item items i = Some x" and "req_method req = POST"
  shows "(form req ''status'' = None \<longrightarrow> update items i req = (items, Inl BadRequest)) \<and>
         (\<forall>s. form req ''status'' = Some s \<longrightarrow>
              snd (update items i req) = Inr (Redirect ''/'') \<and>
              map_option status (get_item (fst (update items i req)) i) = Some s)"
proof (intro conjI allI impI)
  assume "form req ''status'' = None"
  then show "update items i req = (items, Inl BadRequest)"
    using assms by (simp add: update_def get_or_404_def)
next
  fix s assume s: "form req ''status'' = Some s"
  show "snd (update items i req) = Inr (Redirect ''/'')"
    using assms s by (simp add: update_post)
  show "map_option status (get_item (fst (update items i req)) i) = Some s"
    using assms s by (simp add: update_post get_item_commit_same)
qed

text \<open>C5, amended, at the sample row: with the status \<^verbatim>\<open>Stolen\<close>, and with no status field.\<close>

theorem update_accepts_any_status_witness:
  "get_item (create_sample_data []) 1 = Some (hd (create_sample_data [])) \<and>
   req_method (submission [(''status'', ''Stolen'')] []) = POST \<and>
   form (submission [(''status'', ''Stolen'')] []) ''status'' = Some ''Stolen'' \<and>
   map_option status
     (get_item (fst (update (create_sample_data []) 1 (submission [(''status'', ''Stolen'')] []))) 1)
     = Some ''Stolen'' \<and>
   update (create_sample_data []) 1 (submission [] []) = (create_sample_data [], Inl BadRequest)"
  using update_accepts_any_status
    [of "create_sample_data []" 1 "hd (create_sample_data [])"
        "submission [(''status'', ''Stolen'')] []"]
    update_accepts_any_status
    [of "create_sample_data []" 1 "hd (create_sample_data [])" "submission [] []"]
  by (simp add: create_sample_data_def next_id_def get_item_def submission_def)

section \<open>Facts about the handlers\<close>

lemma report_cases:
  "report sf now st req = (st, Inl BadRequest) \<or>
   report sf now st req = (st, Inr (Render ''report.html'' None)) \<or>
   (\<exists>x. db (fst (report sf now st req)) = db st @ [x]
      \<and> snd (report sf now st req) = Inr (Redirect ''/dashboard'')
      \<and> r_date x = now \<and> form req ''status'' = Some (r_status x)
      \<and> r_id x = next_id (map r_id (db st)))"
  by (auto simp: report_def Let_def split: option.splits)

lemma app_step_cases:
  "db (app_step sf st c) = db st \<or>
   (\<exists>x now req. c = Report now req \<and> db (app_step sf st c) = db st @ [x] \<and> r_date x = now \<and>
       form req ''status'' = Some (r_status x))"
proof (cases c)
  case (Report now req)
  then show ?thesis using report_cases [of sf now st req] by auto
qed (simp_all add: home_def dashboard_def uploaded_file_def)

lemma app_run_Cons: "app_run sf st (c # cs) = app_run sf (app_step sf st c) cs"
  by (simp add: app_run_def)

lemma app_run_Nil: "app_run sf st [] = st"
  by (simp add: app_run_def)

lemma item_run_Cons: "item_run items (c # cs) = item_run (item_step items c) cs"
  by (simp add: item_run_def)

lemma item_run_Nil: "item_run items [] = items"
  by (simp add: item_run_def)

lemma app_run_extends: "\<exists>new. db (app_run sf st calls) = db st @ new"
proof (induction calls arbitrary: st)
  case Nil
  show ?case by (simp add: app_run_Nil)
next
  case (Cons c cs)
  obtain new where n: "db (app_run sf (app_step sf st c) cs) = db (app_step sf st c) @ new"
    using Cons.IH by blast
  from app_step_cases [of sf st c] n show ?case
    by (auto simp: app_run_Cons)
qed

lemma find_append_Some: "find P xs = Some x \<Longrightarrow> find P (xs @ ys) = Some x"
  by (induction xs) (auto split: if_splits)





lemma report_item_cases:
  "fst (report_item items req) = items \<or>
   (\<exists>x. fst (report_item items req) = items @ [x] \<and> status x = ''Lost'' \<and>
        item_id x = next_id (map item_id items))"
  by (auto simp: report_item_def split: option.splits)

lemma wallet_form:
  "req_method (submission kvs ups) = POST"
  "form (submission (form_fields name st) ups) ''item_name'' = Some name"
  "form (submission (form_fields name st) ups) ''description'' = Some ''Black leather''"
  "form (submission (form_fields name st) ups) ''reported_by'' = Some ''Jane''"
  "form (submission (form_fields name st) ups) ''contact_info'' = Some ''jane@example.com''"
  "form (submission (form_fields name st) ups) ''proof'' = Some []"
  "form (submission (form_fields name st) ups) ''address'' = Some ''Building B''"
  "form (submission (form_fields name st) ups) ''status'' = st"
  "files (submission kvs (upload fname)) ''proof'' = Some \<lparr>filename = fname, content = ''bytes''\<rparr>"
  by (simp_all add: submission_def form_fields_def upload_def split: option.splits)

lemma allowed_photo_jpg: "allowed_file ''photo.jpg''"
  by (simp add: allowed_file_def rsplit_dot_def lower_def lower_char_def ALLOWED_EXTENSIONS_def)

lemma accepted_report_db:
  "db (app_step id st (accepted_report now s))
     = db st @ [wallet_row (next_id (map r_id (db st))) s now]"
  by (simp add: accepted_report_def report_def submission_def form_fields_def upload_def
      file_bool_def allowed_photo_jpg wallet_row_def Let_def)

lemma db_six_rows:
  "db six_rows =
     [wallet_row 1 ''Lost'' ''2024-05-01 10:00:00'',
      wallet_row 2 ''Found'' ''2024-05-01 10:00:07'',
      wallet_row 3 ''Lost'' ''2024-05-01 11:30:00'',
      wallet_row 4 ''Found'' ''2024-05-02 09:15:00'',
      wallet_row 5 ''Lost'' ''2024-05-02 09:15:30'',
      wallet_row 6 ''Found'' ''2024-05-03 08:00:00'']"
  by (simp add: six_rows_def app_run_def six_reports_def accepted_report_db no_rows_def
      next_id_def wallet_row_def)

section \<open>Submitting a report\<close>







section \<open>The statuses that are stored\<close>

lemma count_by_status_total:
  "\<forall>x\<in>set rows. lost_or_found (r_status x) \<Longrightarrow>
   count_by_status ''Lost'' rows + count_by_status ''Found'' rows = length rows"
  by (induction rows) (auto simp: count_by_status_def lost_or_found_def)

lemma app_step_statuses:
  assumes "\<forall>x\<in>set (db st). lost_or_found (r_status x)" and "app_call_ok c"
  shows "\<forall>x\<in>set (db (app_step sf st c)). lost_or_found (r_status x)"
  using app_step_cases [of sf st c] assms by auto

lemma app_run_statuses:
  "\<forall>x\<in>set (db st). lost_or_found (r_status x) \<Longrightarrow> \<forall>c\<in>set calls. app_call_ok c \<Longrightarrow>
   \<forall>x\<in>set (db (app_run sf st calls)). lost_or_found (r_status x)"
proof (induction calls arbitrary: st)
  case Nil
  then show ?case by (simp add: app_run_Nil)
next
  case (Cons c cs)
  have "\<forall>x\<in>set (db (app_step sf st c)). lost_or_found (r_status x)"
    using Cons.prems by (intro app_step_statuses) auto
  then show ?case using Cons.IH Cons.prems by (simp add: app_run_Cons)
qed

lemma item_step_statuses:
  assumes "\<forall>x\<in>set items. lost_or_found (status x)" and "item_call_ok c"
  shows "\<forall>x\<in>set (item_step items c). lost_or_found (status x)"
proof (cases c)
  case Index
  then show ?thesis using assms by (simp add: index_def)
next
  case (Report_item req)
  then show ?thesis using assms report_item_cases [of items req]
    by (auto simp: lost_or_found_def)
next
  case (Update i req)
  then show ?thesis using assms
    by (auto simp: update_def get_or_404_def commit_status_def split: option.splits)
qed

lemma item_run_statuses:
  "\<forall>x\<in>set items. lost_or_found (status x) \<Longrightarrow> \<forall>c\<in>set calls. item_call_ok c \<Longrightarrow>
   \<forall>x\<in>set (item_run items calls). lost_or_found (status x)"
proof (induction calls arbitrary: items)
  case Nil
  then show ?case by (simp add: item_run_Nil)
next
  case (Cons c cs)
  have "\<forall>x\<in>set (item_step items c). lost_or_found (status x)"
    using Cons.prems by (intro item_step_statuses) auto
  then show ?case using Cons.IH Cons.prems by (simp add: item_run_Cons)
qed

lemma six_reports_ok: "\<forall>c\<in>set six_reports. app_call_ok c"
  by (simp add: six_reports_def accepted_report_def wallet_form lost_or_found_def)

text \<open>
  C7 as stated (every stored status is \<^verbatim>\<open>Lost\<close> or \<^verbatim>\<open>Found\<close> in every reachable state, so
  the two counts add up to the number of items) fails: a report to \<^verbatim>\<open>app.py\<close> with the status
  \<^verbatim>\<open>Stolen\<close> leaves one row and both counts at 0, and an update with the status \<^verbatim>\<open>Stolen\<close>
  stores it.
\<close>

theorem stolen_status_persisted:
  "count_by_status ''Lost''
      (db (app_run id no_rows [accepted_report ''2024-05-01 10:00:00'' ''Stolen'']))
    + count_by_status ''Found''
      (db (app_run id no_rows [accepted_report ''2024-05-01 10:00:00'' ''Stolen''])) = 0 \<and>
   length (db (app_run id no_rows [accepted_report ''2024-05-01 10:00:00'' ''Stolen''])) = 1 \<and>
   map status (item_run (create_sample_data [])
      [Update 1 (submission [(''status'', ''Stolen'')] [])]) = [''Stolen'']"
  by (simp add: app_run_def accepted_report_db count_by_status_def wallet_row_def no_rows_def
      item_run_def update_def get_or_404_def get_item_def commit_status_def
      create_sample_data_def next_id_def submission_def)

text \<open>
  C7, amended. From a state in which every status is \<^verbatim>\<open>Lost\<close> or \<^verbatim>\<open>Found\<close>, after any
  sequence of requests whose reports (\<^verbatim>\<open>app.py\<close>) and updates (\<^verbatim>\<open>safety.py\<close>, \<^verbatim>\<open>search.py\<close>)
  carry no status other than \<^verbatim>\<open>Lost\<close> or \<^verbatim>\<open>Found\<close>, every stored status is \<^verbatim>\<open>Lost\<close> or
  \<^verbatim>\<open>Found\<close>, and the count of \<^verbatim>\<open>Lost\<close> rows plus the count of \<^verbatim>\<open>Found\<close> rows is the number
  of rows.
\<close>

theorem statuses_stay_lost_or_found:
  assumes "\<forall>x\<in>set (db st). lost_or_found (r_status x)" and "\<forall>c\<in>set calls. app_call_ok c"
    and "\<forall>x\<in>set items. lost_or_found (status x)" and "\<forall>c\<in>set icalls. item_call_ok c"
  shows "(\<forall>x\<in>set (db (app_run sf st calls)). lost_or_found (r_status x)) \<and>
         count_by_status ''Lost'' (db (app_run sf st calls))
           + count_by_status ''Found'' (db (app_run sf st calls))
           = length (db (app_run sf st calls)) \<and>
         (\<forall>x\<in>set (item_run items icalls). lost_or_found (status x))"
  using app_run_statuses [OF assms(1,2)] item_run_statuses [OF assms(3,4)]
  by (simp add: count_by_status_total)

text \<open>
  C7, amended, at six reports from the empty table and at an update of the sample row.
\<close>

theorem statuses_stay_lost_or_found_witness:
  "count_by_status ''Lost'' (db (app_run id no_rows six_reports))
     + count_by_status ''Found'' (db (app_run id no_rows six_reports))
     = length (db (app_run id no_rows six_reports)) \<and>
   length (db (app_run id no_rows six_reports)) = 6 \<and>
   lost_or_found (status (hd (item_run (create_sample_data [])
      [Update 1 (submission [(''status'', ''Found'')] [])]))) \<and>
   status (hd (item_run (create_sample_data [])
      [Update 1 (submission [(''status'', ''Found'')] [])])) = ''Found''"
proof -
  let ?calls = "[Update 1 (submission [(''status'', ''Found'')] [])]"
  have h1: "\<forall>x\<in>set (db no_rows). lost_or_found (r_status x)"
    by (simp add: no_rows_def)
  have h3: "\<forall>x\<in>set (create_sample_data []). lost_or_found (status x)"
    by (simp add: create_sample_data_def lost_or_found_def)
  have h4: "\<forall>c\<in>set ?calls. item_call_ok c"
    by (simp add: submission_def lost_or_found_def)
  note t = statuses_stay_lost_or_found [OF h1 six_reports_ok h3 h4, of id]
  have r: "item_run (create_sample_data []) ?calls
      = [(hd (create_sample_data []))\<lparr>status := ''Found''\<rparr>]"
    by (simp add: item_run_def update_def get_or_404_def get_item_def commit_status_def
        create_sample_data_def next_id_def submission_def)
  have l: "length (db (app_run id no_rows six_reports)) = 6"
    using db_six_rows by (simp add: six_rows_def)
  have m: "hd (item_run (create_sample_data []) ?calls)
      \<in> set (item_run (create_sample_data []) ?calls)"
    unfolding r by simp
  have s: "status (hd (item_run (create_sample_data []) ?calls)) = ''Found''"
    unfolding r by simp
  from t m l s show ?thesis by blast
qed

section \<open>The dashboard\<close>

lemma mset_insert_desc: "mset (insert_desc x xs) = add_mset x (mset xs)"
  by (induction xs) auto

lemma set_insert_desc: "set (insert_desc x xs) = insert x (set xs)"
  by (induction xs) auto

lemma sorted_insert_desc:
  "sorted_wrt (\<lambda>a b. r_date b \<le> r_date a) xs \<Longrightarrow>
   sorted_wrt (\<lambda>a b. r_date b \<le> r_date a) (insert_desc x xs)"
proof (induction xs)
  case Nil
  show ?case by simp
next
  case (Cons y ys)
  show ?case
  proof (cases "r_date y \<le> r_date x")
    case True
    then show ?thesis using Cons.prems by auto
  next
    case False
    then have "r_date x \<le> r_date y" by simp
    then show ?thesis using False Cons by (auto simp: set_insert_desc)
  qed
qed

lemma mset_order_by_date_desc: "mset (order_by_date_desc rows) = mset rows"
  unfolding order_by_date_desc_def by (induction rows) (auto simp: mset_insert_desc)

lemma sorted_order_by_date_desc:
  "sorted_wrt (\<lambda>a b. r_date b \<le> r_date a) (order_by_date_desc rows)"
  unfolding order_by_date_desc_def by (induction rows) (auto simp: sorted_insert_desc)

lemma count_by_status_card:
  "count_by_status s rows = card {k. k < length rows \<and> r_status (rows ! k) = s}"
  by (simp add: count_by_status_def length_filter_conv_card)

lemma insert_desc_oldest:
  "\<forall>y\<in>set ys. r_date x < r_date y \<Longrightarrow> insert_desc x ys = ys @ [x]"
  by (induction ys) auto

lemma order_by_date_desc_increasing:
  "sorted_wrt (<) (map r_date rows) \<Longrightarrow> order_by_date_desc rows = rev rows"
proof (induction rows)
  case Nil
  show ?case by (simp add: order_by_date_desc_def)
next
  case (Cons x xs)
  have ih: "order_by_date_desc xs = rev xs" using Cons by simp
  have lt: "\<forall>y\<in>set (rev xs). r_date x < r_date y" using Cons.prems by simp
  have "order_by_date_desc (x # xs) = insert_desc x (order_by_date_desc xs)"
    by (simp add: order_by_date_desc_def)
  also have "\<dots> = rev xs @ [x]" unfolding ih using lt by (rule insert_desc_oldest)
  finally show ?case by simp
qed

lemma take_of_sorted_desc:
  assumes "sorted_wrt (\<lambda>a b. r_date b \<le> r_date a) s" and "mset s = mset rows"
  shows "length (take n s) = min n (length rows) \<and>
         sorted_wrt (\<lambda>a b. r_date b \<le> r_date a) (take n s) \<and>
         mset (take n s) \<subseteq># mset rows \<and>
         (\<forall>x\<in>#mset rows - mset (take n s). \<forall>y\<in>set (take n s). r_date x \<le> r_date y)"
proof -
  have len: "length s = length rows" using assms(2) by (rule mset_eq_length)
  have c1: "length (take n s) = min n (length rows)"
    using len by simp
  have app: "sorted_wrt (\<lambda>a b. r_date b \<le> r_date a) (take n s @ drop n s)"
    using assms(1) by simp
  have c2: "sorted_wrt (\<lambda>a b. r_date b \<le> r_date a) (take n s)"
    using app unfolding sorted_wrt_append by blast
  have cross: "\<forall>y\<in>set (take n s). \<forall>x\<in>set (drop n s). r_date x \<le> r_date y"
    using app unfolding sorted_wrt_append by blast
  have split: "mset s = mset (take n s) + mset (drop n s)"
    by (simp flip: mset_append)
  have c3: "mset (take n s) \<subseteq># mset rows"
    unfolding assms(2) [symmetric] by (subst split) (rule mset_subset_eq_add_left)
  have rest: "mset rows - mset (take n s) = mset (drop n s)"
    unfolding assms(2) [symmetric] by (subst split) simp
  have c4: "\<forall>x\<in>#mset rows - mset (take n s). \<forall>y\<in>set (take n s). r_date x \<le> r_date y"
    unfolding rest using cross by simp
  from c1 c2 c3 c4 show ?thesis by (intro conjI)
qed

lemma recent_six_rows:
  "recent_activity (dashboard_summary six_rows) =
     [wallet_row 6 ''Found'' ''2024-05-03 08:00:00'',
      wallet_row 5 ''Lost'' ''2024-05-02 09:15:30'',
      wallet_row 4 ''Found'' ''2024-05-02 09:15:00'',
      wallet_row 3 ''Lost'' ''2024-05-01 11:30:00'',
      wallet_row 2 ''Found'' ''2024-05-01 10:00:07'']"
  by (simp add: dashboard_summary_def limit_def order_by_date_desc_def db_six_rows
      wallet_row_def)

text \<open>
  C8 as stated (in every state the list holds the rows most recently created) fails. After
  six reports within one second the row created last is left out; and when the clock is
  set back before the sixth report, the row created last has the earliest date and is left
  out whatever the order among equal dates.
\<close>

theorem dashboard_leaves_newest_out:
  "map r_id (recent_activity (dashboard_summary (app_run id no_rows
      [accepted_report ''2024-05-01 10:00:00'' ''Lost'',
       accepted_report ''2024-05-01 10:00:00'' ''Lost'',
       accepted_report ''2024-05-01 10:00:00'' ''Lost'',
       accepted_report ''2024-05-01 10:00:00'' ''Lost'',
       accepted_report ''2024-05-01 10:00:00'' ''Lost'',
       accepted_report ''2024-05-01 10:00:00'' ''Lost''])))
     = [1, 2, 3, 4, 5] \<and>
   map r_id (recent_activity (dashboard_summary (app_run id no_rows
      [accepted_report ''2024-11-03 01:10:00'' ''Lost'',
       accepted_report ''2024-11-03 01:20:00'' ''Lost'',
       accepted_report ''2024-11-03 01:30:00'' ''Lost'',
       accepted_report ''2024-11-03 01:40:00'' ''Lost'',
       accepted_report ''2024-11-03 01:50:00'' ''Lost'',
       accepted_report ''2024-11-03 01:00:00'' ''Lost''])))
     = [5, 4, 3, 2, 1]"
  by (simp add: dashboard_summary_def limit_def order_by_date_desc_def app_run_def
      accepted_report_db no_rows_def next_id_def wallet_row_def)

text \<open>
  C8, amended. In every state the dashboard leaves the state as it is and renders: the number of rows
  with status \<^verbatim>\<open>Lost\<close>, the number of rows with status \<^verbatim>\<open>Found\<close>, and a list of
  \<open>min 5 n\<close> of the \<open>n\<close> rows, in descending order of date, such that no row left out
  has a later date than a row in the list; when the dates strictly increase in the order
  of creation, the list is the last five rows created, latest first. Which of several rows
  of the same date is listed is not fixed by the query, and only the last part depends
  on it.
\<close>

theorem dashboard_counts_and_recent:
  "\<exists>d. dashboard st = (st, Inr (Render ''dashboard.html'' (Some d))) \<and>
       total_lost d = card {k. k < length (db st) \<and> r_status (db st ! k) = ''Lost''} \<and>
       total_found d = card {k. k < length (db st) \<and> r_status (db st ! k) = ''Found''} \<and>
       length (recent_activity d) = min 5 (length (db st)) \<and>
       sorted_wrt (\<lambda>a b. r_date b \<le> r_date a) (recent_activity d) \<and>
       mset (recent_activity d) \<subseteq># mset (db st) \<and>
       (\<forall>x\<in>#mset (db st) - mset (recent_activity d).
          \<forall>y\<in>set (recent_activity d). r_date x \<le> r_date y) \<and>
       (sorted_wrt (<) (map r_date (db st)) \<longrightarrow>
          recent_activity d = take 5 (rev (db st)))"
proof (intro exI conjI)
  show "dashboard st = (st, Inr (Render ''dashboard.html'' (Some (dashboard_summary st))))"
    by (simp add: dashboard_def)
  show "total_lost (dashboard_summary st)
             = card {k. k < length (db st) \<and> r_status (db st ! k) = ''Lost''}"
    by (simp add: dashboard_summary_def count_by_status_card)
  show "total_found (dashboard_summary st)
             = card {k. k < length (db st) \<and> r_status (db st ! k) = ''Found''}"
    by (simp add: dashboard_summary_def count_by_status_card)
  have r: "recent_activity (dashboard_summary st) = take 5 (order_by_date_desc (db st))"
    by (simp add: dashboard_summary_def limit_def)
  note t = take_of_sorted_desc [OF sorted_order_by_date_desc mset_order_by_date_desc,
      of 5 "db st"]
  show "length (recent_activity (dashboard_summary st)) = min 5 (length (db st))"
    unfolding r using t by blast
  show "sorted_wrt (\<lambda>a b. r_date b \<le> r_date a) (recent_activity (dashboard_summary st))"
    unfolding r using t by blast
  show "mset (recent_activity (dashboard_summary st)) \<subseteq># mset (db st)"
    unfolding r using t by blast
  show "\<forall>x\<in>#mset (db st) - mset (recent_activity (dashboard_summary st)).
          \<forall>y\<in>set (recent_activity (dashboard_summary st)). r_date x \<le> r_date y"
    unfolding r using t by blast
  show "sorted_wrt (<) (map r_date (db st)) \<longrightarrow>
          recent_activity (dashboard_summary st) = take 5 (rev (db st))"
    unfolding r by (simp add: order_by_date_desc_increasing)
qed

text \<open>
  C8, amended, after six reports at increasing dates: the oldest row is left out, its date is not
  after the date of the last row listed, and the list is the last five rows, latest first.
\<close>

theorem dashboard_counts_and_recent_witness:
  "db six_rows ! 0 \<in># mset (db six_rows) - mset (recent_activity (dashboard_summary six_rows)) \<and>
   recent_activity (dashboard_summary six_rows) ! 4
     \<in> set (recent_activity (dashboard_summary six_rows)) \<and>
   r_date (db six_rows ! 0) \<le> r_date (recent_activity (dashboard_summary six_rows) ! 4) \<and>
   total_lost (dashboard_summary six_rows) = 3 \<and>
   total_found (dashboard_summary six_rows) = 3 \<and>
   sorted_wrt (<) (map r_date (db six_rows)) \<and>
   recent_activity (dashboard_summary six_rows) = take 5 (rev (db six_rows))"
proof -
  have st: "sorted_wrt (<) (map r_date (db six_rows))"
    by (simp add: db_six_rows wallet_row_def)
  have m1: "db six_rows ! 0
      \<in># mset (db six_rows) - mset (recent_activity (dashboard_summary six_rows))"
    by (simp add: db_six_rows recent_six_rows wallet_row_def)
  have m2: "recent_activity (dashboard_summary six_rows) ! 4
      \<in> set (recent_activity (dashboard_summary six_rows))"
    by (simp add: recent_six_rows)
  have c: "total_lost (dashboard_summary six_rows) = 3"
     "total_found (dashboard_summary six_rows) = 3"
    by (simp_all add: dashboard_summary_def count_by_status_def db_six_rows wallet_row_def)
  obtain d where d: "dashboard six_rows = (six_rows, Inr (Render ''dashboard.html'' (Some d)))"
    and q: "\<forall>x\<in>#mset (db six_rows) - mset (recent_activity d).
          \<forall>y\<in>set (recent_activity d). r_date x \<le> r_date y"
    and o: "sorted_wrt (<) (map r_date (db six_rows)) \<longrightarrow>
          recent_activity d = take 5 (rev (db six_rows))"
    using dashboard_counts_and_recent [of six_rows] by blast
  have "d = dashboard_summary six_rows" using d by (simp add: dashboard_def)
  with q o st m1 m2 have "r_date (db six_rows ! 0)
      \<le> r_date (recent_activity (dashboard_summary six_rows) ! 4) \<and>
      recent_activity (dashboard_summary six_rows) = take 5 (rev (db six_rows))" by blast
  with m1 m2 c st show ?thesis by blast
qed

section \<open>Dates\<close>

lemma sorted_run:
  "sorted (map r_date (db st) @ clock_readings calls) \<Longrightarrow>
   sorted (map r_date (db (app_run sf st calls)))"
proof (induction calls arbitrary: st)
  case Nil
  then show ?case by (simp add: app_run_Nil)
next
  case (Cons c cs)
  have "sorted (map r_date (db (app_step sf st c)) @ clock_readings cs)"
  proof (cases c)
    case (Report now req)
    then show ?thesis using Cons.prems app_step_cases [of sf st c]
      by (auto simp: sorted_append)
  next
    case Home
    then show ?thesis using Cons.prems by (simp add: home_def)
  next
    case Dashboard
    then show ?thesis using Cons.prems by (simp add: dashboard_def)
  next
    case (Uploaded_file x)
    then show ?thesis using Cons.prems by (simp add: uploaded_file_def)
  qed
  then show ?case using Cons.IH by (simp add: app_run_Cons)
qed

text \<open>
  C9 as stated (the date of the later of two successive submissions is never before the date
  of the earlier) fails: the date is the reading of the local wall clock, and when the clock
  is set back between two submissions (here by the end of daylight saving time) the later
  row has the earlier date.
\<close>

theorem clock_set_back_dates_decrease:
  "map r_date (db (app_run id no_rows
      [accepted_report ''2024-11-03 01:59:59'' ''Lost'',
       accepted_report ''2024-11-03 01:00:00'' ''Lost'']))
     = [''2024-11-03 01:59:59'', ''2024-11-03 01:00:00''] \<and>
   \<not> ''2024-11-03 01:59:59'' \<le> ''2024-11-03 01:00:00''"
  by (simp add: app_run_def accepted_report_db wallet_row_def no_rows_def)

text \<open>
  C9, amended. A report either adds no row or adds one row whose date is the reading of the
  wall clock at the report; no request of \<^verbatim>\<open>app.py\<close> changes a row that exists (every row
  stays at its position with all its fields, and reads back by its id as before), so the
  date is never modified; and when the readings of the clock at the successive reports are
  in non-decreasing order (and not before the dates already stored), the dates of the rows
  in creation order are in non-decreasing order.
\<close>

theorem dates_fixed_at_creation:
  "(db (fst (report sf now st req)) = db st \<or>
      (\<exists>x. db (fst (report sf now st req)) = db st @ [x] \<and> r_date x = now)) \<and>
   (\<forall>k<length (db st). db (app_run sf st calls) ! k = db st ! k) \<and>
   (\<forall>i x. get_reported (db st) i = Some x \<longrightarrow>
          get_reported (db (app_run sf st calls)) i = Some x) \<and>
   (sorted (map r_date (db st) @ clock_readings calls) \<longrightarrow>
      sorted (map r_date (db (app_run sf st calls))))"
proof (intro conjI)
  show "db (fst (report sf now st req)) = db st \<or>
      (\<exists>x. db (fst (report sf now st req)) = db st @ [x] \<and> r_date x = now)"
    using report_cases [of sf now st req] by auto
  obtain new where n: "db (app_run sf st calls) = db st @ new"
    using app_run_extends by blast
  show "\<forall>k<length (db st). db (app_run sf st calls) ! k = db st ! k"
    by (simp add: n nth_append)
  show "\<forall>i x. get_reported (db st) i = Some x \<longrightarrow>
          get_reported (db (app_run sf st calls)) i = Some x"
    by (simp add: n get_reported_def find_append_Some)
  show "sorted (map r_date (db st) @ clock_readings calls) \<longrightarrow>
      sorted (map r_date (db (app_run sf st calls)))"
    by (simp add: sorted_run)
qed

text \<open>
  C9, amended, at a dashboard request and a report after the six reports.
\<close>

theorem dates_fixed_at_creation_witness:
  "db (app_run id six_rows [Dashboard, accepted_report ''2024-05-04 12:00:00'' ''Lost'']) ! 0
     = db six_rows ! 0 \<and>
   get_reported
     (db (app_run id six_rows [Dashboard, accepted_report ''2024-05-04 12:00:00'' ''Lost''])) 3
     = Some (wallet_row 3 ''Lost'' ''2024-05-01 11:30:00'') \<and>
   sorted (map r_date
     (db (app_run id six_rows [Dashboard, accepted_report ''2024-05-04 12:00:00'' ''Lost'']))) \<and>
   length (db (app_run id six_rows
     [Dashboard, accepted_report ''2024-05-04 12:00:00'' ''Lost''])) = 7"
proof -
  let ?calls = "[Dashboard, accepted_report ''2024-05-04 12:00:00'' ''Lost'']"
  note t = dates_fixed_at_creation
    [of id "''2024-05-04 12:00:00''" six_rows
        "submission (form_fields ''Wallet'' (Some ''Lost'')) (upload ''photo.jpg'')" ?calls]
  have h1: "0 < length (db six_rows)" by (simp add: db_six_rows)
  have h2: "get_reported (db six_rows) 3 = Some (wallet_row 3 ''Lost'' ''2024-05-01 11:30:00'')"
    by (simp add: db_six_rows get_reported_def wallet_row_def)
  have h3: "sorted (map r_date (db six_rows) @ clock_readings ?calls)"
    by (simp add: db_six_rows wallet_row_def accepted_report_def)
  have l: "length (db (app_run id six_rows ?calls)) = 7"
    by (simp add: app_run_def dashboard_def accepted_report_db db_six_rows)
  from t h1 h2 h3 l show ?thesis by blast
qed

end
